theory Spec2Isabelle
  imports Complex_Main
begin

section \<open>Python values\<close>

text \<open>
  A Python \<open>str\<close> is a sequence of Unicode code points, so it is a list of naturals here
  (\<open>str.strip\<close> depends on code points beyond the 8-bit range). \<open>ascii\<close> turns a literal
  into such a list. \<open>bytes\<close> is a list of byte values.
\<close>

type_synonym str = "nat list"
type_synonym bytes = "nat list"

definition ascii :: "string \<Rightarrow> str" where
  "ascii s = map of_char s"

text \<open>A raised exception: its class name and \<open>str(e)\<close>.\<close>

datatype exn = Exception (exn_class: str) (exn_msg: str)

text \<open>
  \<open>str.isspace\<close> on one code point, and \<open>str.strip()\<close> with no argument: Python removes the
  code points of this table from both ends.
\<close>

definition isspace :: "nat \<Rightarrow> bool" where
  "isspace c = (c \<in> {9, 10, 11, 12, 13, 28, 29, 30, 31, 32, 133, 160, 5760,
                       8232, 8233, 8239, 8287, 12288} \<or> (8192 \<le> c \<and> c \<le> 8202))"

definition strip :: "str \<Rightarrow> str" where
  "strip s = rev (dropWhile isspace (rev (dropWhile isspace s)))"

text \<open>\<open>os.path.join\<close> of two components (posixpath); the separator is code point 47.\<close>

definition os_path_join :: "str \<Rightarrow> str \<Rightarrow> str" where
  "os_path_join a b =
     (if b \<noteq> [] \<and> hd b = 47 then b
      else if a = [] \<or> last a = 47 then a @ b
      else a @ [47] @ b)"

section \<open>The PDF library: what the program reads and what it builds\<close>

text \<open>
  The page rectangle, through the attributes the program reads (\<open>page.rect\<close>,
  \<open>.width\<close>, \<open>.height\<close>). \<open>page.get_images(full=True)\<close> gives tuples whose component 0 is
  the cross reference number. \<open>doc.extract_image(xref)\<close> gives a dictionary; \<open>image\<close> is
  \<open>None\<close> when the key \<open>"image"\<close> is missing from it.
\<close>

record rect =
  x0 :: real
  y0 :: real
  width :: real
  height :: real

record img =
  xref :: nat
  smask :: nat
  img_width :: nat
  img_height :: nat

record base_image =
  ext :: str
  image :: "bytes option"

record page =
  get_text :: "exn + str"
  rect :: rect
  get_images :: "exn + img list"

record document =
  pages :: "page list"
  extract_image :: "nat \<Rightarrow> exn + base_image"

text \<open>
  The document under construction: each new page keeps the size it was created with and
  the insertion calls made on it, in call order. The font name is \<open>None\<close> when the caller
  names no font and the library's default is used.
\<close>

datatype draw_op =
    InsertText (op_point: "real \<times> real") (op_text: str) (op_fontsize: real)
      (op_fontname: "str option")
  | InsertImage (op_rect: rect) (op_stream: bytes)

record new_page =
  np_width :: real
  np_height :: real
  contents :: "draw_op list"

datatype saved_file = Complete "new_page list" | Partial

datatype save_outcome = SaveOk | SaveFailed exn bool

section \<open>The completion service\<close>

text \<open>
  A request carries the model name and the (role, content) turns. A response lists, for
  each choice, \<open>message.content\<close>, which is \<open>None\<close> when the choice holds no text.
\<close>

record request =
  model :: str
  messages :: "(str \<times> str) list"

record response =
  choices :: "str option list"

section \<open>The environment of a run\<close>

text \<open>
  The libraries are parameters: each call of the source that can raise has its outcome
  decided here. \<open>chat_completions_create\<close> sees the key of the client and the requests
  sent so far, so two calls with the same request may differ. \<open>save_outcome\<close> tells
  whether \<open>save\<close> succeeds; a failed save says whether it left a partial file.
\<close>

record library =
  fitz_open :: "str \<Rightarrow> exn + document"
  new_page_error :: "real \<Rightarrow> real \<Rightarrow> exn option"
  insert_text_error :: "real \<times> real \<Rightarrow> str \<Rightarrow> real \<Rightarrow> exn option"
  insert_image_error :: "rect \<Rightarrow> bytes \<Rightarrow> exn option"
  save_outcome :: "str \<Rightarrow> new_page list \<Rightarrow> save_outcome"
  chat_completions_create :: "str \<Rightarrow> request list \<Rightarrow> request \<Rightarrow> exn + response"

text \<open>
  What a run changes: the lines printed, the requests sent to the service, and the files
  written by \<open>save\<close>.
\<close>

record world =
  stdout :: "str list"
  requests :: "request list"
  files :: "str \<rightharpoonup> saved_file"

definition print :: "str \<Rightarrow> world \<Rightarrow> world" where
  "print line st = st\<lparr>stdout := stdout st @ [line]\<rparr>"

text \<open>The two emoji of the messages, as code points.\<close>

definition cross_mark :: str where
  "cross_mark = [10060]"

definition check_mark :: str where
  "check_mark = [9989]"

section \<open>Construction of the processor\<close>

text \<open>
  \<open>load_dotenv()\<close> adds the variables of the \<open>.env\<close> file that the process environment
  does not already hold. \<open>openai_error\<close> and \<open>makedirs_error\<close> decide whether
  \<open>openai.OpenAI(api_key=...)\<close> and \<open>os.makedirs(..., exist_ok=True)\<close> raise.
\<close>

record system =
  environ :: "str \<rightharpoonup> str"
  dotenv :: "str \<rightharpoonup> str"
  file_dir :: str
  openai_error :: "str \<Rightarrow> exn option"
  makedirs_error :: "str \<Rightarrow> exn option"

record processor =
  api_key :: str
  script_dir :: str
  input_dir :: str
  output_dir :: str

definition load_dotenv :: "(str \<rightharpoonup> str) \<Rightarrow> (str \<rightharpoonup> str) \<Rightarrow> (str \<rightharpoonup> str)" where
  "load_dotenv file env = file ++ env"

definition os_getenv :: "system \<Rightarrow> str \<Rightarrow> str option" where
  "os_getenv sys name = load_dotenv (dotenv sys) (environ sys) name"

definition key_not_found :: exn where
  "key_not_found =
     Exception (ascii ''ValueError'')
       (ascii ''OpenAI API Key not found. Please set it in .env file.'')"

text \<open>
  \<open>__init__\<close>. The test \<open>not self.api_key\<close> is true of \<open>None\<close> and of the empty string: both
  branches raise the same \<open>ValueError\<close>.
\<close>

definition init :: "system \<Rightarrow> exn + processor" where
  "init sys =
     (case os_getenv sys (ascii ''OPENAI_API_KEY'') of
        None \<Rightarrow> Inl key_not_found
      | Some k \<Rightarrow>
          if k = [] then Inl key_not_found
          else
            (case openai_error sys k of
               Some e \<Rightarrow> Inl e
             | None \<Rightarrow>
                 (let sd = file_dir sys;
                      idir = os_path_join (os_path_join sd (ascii ''..'')) (ascii ''input'');
                      odir = os_path_join (os_path_join sd (ascii ''..'')) (ascii ''output'')
                  in case makedirs_error sys odir of
                       Some e \<Rightarrow> Inl e
                     | None \<Rightarrow>
                         Inr \<lparr>api_key = k, script_dir = sd,
                              input_dir = idir, output_dir = odir\<rparr>)))"

section \<open>Extraction\<close>

text \<open>
  The loop \<open>for page in doc: page_texts.append(page.get_text())\<close>, with the list built so
  far as accumulator; a raising \<open>get_text\<close> leaves the loop.
\<close>

fun extract_loop :: "page list \<Rightarrow> str list \<Rightarrow> exn + str list" where
  "extract_loop [] page_texts = Inr page_texts"
| "extract_loop (p # ps) page_texts =
     (case get_text p of
        Inl e \<Rightarrow> Inl e
      | Inr page_text \<Rightarrow> extract_loop ps (page_texts @ [page_text]))"

text \<open>The body of the \<open>try\<close> of \<open>extract_text_from_pdf\<close>.\<close>

definition extract_text_try :: "library \<Rightarrow> str \<Rightarrow> exn + str list" where
  "extract_text_try lib pdf_path =
     (case fitz_open lib pdf_path of
        Inl e \<Rightarrow> Inl e
      | Inr doc \<Rightarrow> extract_loop (pages doc) [])"

text \<open>
  \<open>extract_text_from_pdf\<close>: the \<open>except Exception\<close> prints and returns the empty list. The
  result is \<open>Inl\<close> when an exception leaves the function.
\<close>

definition extract_text_from_pdf ::
    "library \<Rightarrow> str \<Rightarrow> world \<Rightarrow> (exn + str list) \<times> world" where
  "extract_text_from_pdf lib pdf_path st =
     (case extract_text_try lib pdf_path of
        Inr page_texts \<Rightarrow> (Inr page_texts, st)
      | Inl e \<Rightarrow> (Inr [], print (ascii ''Error extracting text: '' @ exn_msg e) st))"

section \<open>Rewriting\<close>

definition gpt_request :: "str \<Rightarrow> str \<Rightarrow> request" where
  "gpt_request txt command =
     \<lparr>model = ascii ''gpt-4-turbo-preview'',
      messages =
        [(ascii ''system'', ascii ''You are an AI assistant that edits text precisely.''),
         (ascii ''user'',
          ascii ''Command: '' @ command @ [10, 10] @ ascii ''Original Text:'' @ [10] @ txt)]\<rparr>"

text \<open>The messages of the two exceptions Python raises itself; 39 is the single quote.\<close>

definition index_error :: exn where
  "index_error = Exception (ascii ''IndexError'') (ascii ''list index out of range'')"

definition attribute_error :: exn where
  "attribute_error =
     Exception (ascii ''AttributeError'')
       ([39] @ ascii ''NoneType'' @ [39] @ ascii '' object has no attribute '' @
        [39] @ ascii ''strip'' @ [39])"

definition key_error :: exn where
  "key_error = Exception (ascii ''KeyError'') ([39] @ ascii ''image'' @ [39])"

text \<open>
  The body of the \<open>try\<close> of \<open>process_command_with_gpt\<close>: the request is sent, then
  \<open>response.choices[0]\<close> raises \<open>IndexError\<close> on an empty list and \<open>.content.strip()\<close>
  raises \<open>AttributeError\<close> on \<open>None\<close>.
\<close>

definition process_command_try ::
    "library \<Rightarrow> processor \<Rightarrow> str \<Rightarrow> str \<Rightarrow> world \<Rightarrow> (exn + str) \<times> world" where
  "process_command_try lib self txt command st =
     (let req = gpt_request txt command;
          st' = st\<lparr>requests := requests st @ [req]\<rparr>
      in case chat_completions_create lib (api_key self) (requests st) req of
           Inl e \<Rightarrow> (Inl e, st')
         | Inr resp \<Rightarrow>
             (case choices resp of
                [] \<Rightarrow> (Inl index_error, st')
              | c # cs \<Rightarrow>
                  (case c of
                     None \<Rightarrow> (Inl attribute_error, st')
                   | Some s \<Rightarrow> (Inr (strip s), st'))))"

definition process_command_with_gpt ::
    "library \<Rightarrow> processor \<Rightarrow> str \<Rightarrow> str \<Rightarrow> world \<Rightarrow> (exn + str) \<times> world" where
  "process_command_with_gpt lib self txt command st =
     (case process_command_try lib self txt command st of
        (Inr modified, st') \<Rightarrow> (Inr modified, st')
      | (Inl e, st') \<Rightarrow>
          (Inr txt, print (ascii ''Error processing with GPT: '' @ exn_msg e) st'))"

section \<open>Reconstruction\<close>

text \<open>
  The calls on the new document. \<open>new_page(width, height)\<close> gives an empty page of that
  size; \<open>insert_text\<close> and \<open>insert_image\<close> add to the page they are called on.
\<close>

definition new_doc_new_page :: "library \<Rightarrow> real \<Rightarrow> real \<Rightarrow> exn + new_page" where
  "new_doc_new_page lib w h =
     (case new_page_error lib w h of
        Some e \<Rightarrow> Inl e
      | None \<Rightarrow> Inr \<lparr>np_width = w, np_height = h, contents = []\<rparr>)"

definition insert_text ::
    "library \<Rightarrow> real \<times> real \<Rightarrow> str \<Rightarrow> real \<Rightarrow> new_page \<Rightarrow> exn + new_page" where
  "insert_text lib pt txt fsize np =
     (case insert_text_error lib pt txt fsize of
        Some e \<Rightarrow> Inl e
      | None \<Rightarrow> Inr (np\<lparr>contents := contents np @ [InsertText pt txt fsize None]\<rparr>))"

definition insert_image :: "library \<Rightarrow> rect \<Rightarrow> bytes \<Rightarrow> new_page \<Rightarrow> exn + new_page" where
  "insert_image lib r image_bytes np =
     (case insert_image_error lib r image_bytes of
        Some e \<Rightarrow> Inl e
      | None \<Rightarrow> Inr (np\<lparr>contents := contents np @ [InsertImage r image_bytes]\<rparr>))"

text \<open>
  The loop \<open>for img in page.get_images(full=True)\<close>: \<open>img[0]\<close> is the cross reference,
  \<open>base_image["image"]\<close> raises \<open>KeyError\<close> when the key is missing.
\<close>

fun image_loop ::
    "library \<Rightarrow> document \<Rightarrow> page \<Rightarrow> img list \<Rightarrow> new_page \<Rightarrow> exn + new_page" where
  "image_loop lib doc pg [] np = Inr np"
| "image_loop lib doc pg (im # ims) np =
     (case extract_image doc (xref im) of
        Inl e \<Rightarrow> Inl e
      | Inr base \<Rightarrow>
          (case image base of
             None \<Rightarrow> Inl key_error
           | Some image_bytes \<Rightarrow>
               (case insert_image lib (rect pg) image_bytes np of
                  Inl e \<Rightarrow> Inl e
                | Inr np' \<Rightarrow> image_loop lib doc pg ims np')))"

text \<open>
  The loop \<open>for page, modified_text in zip(doc, modified_page_texts)\<close>, with the pages of the
  new document so far. An exception discards the new document, so a page is added to
  the accumulator once its insertions are done.
\<close>

fun page_loop ::
    "library \<Rightarrow> document \<Rightarrow> (page \<times> str) list \<Rightarrow> new_page list \<Rightarrow> exn + new_page list" where
  "page_loop lib doc [] new_doc = Inr new_doc"
| "page_loop lib doc ((pg, modified_text) # rest) new_doc =
     (case new_doc_new_page lib (width (rect pg)) (height (rect pg)) of
        Inl e \<Rightarrow> Inl e
      | Inr np \<Rightarrow>
          (case insert_text lib (50, 50) modified_text 11 np of
             Inl e \<Rightarrow> Inl e
           | Inr np1 \<Rightarrow>
               (case get_images pg of
                  Inl e \<Rightarrow> Inl e
                | Inr imgs \<Rightarrow>
                    (case image_loop lib doc pg imgs np1 of
                       Inl e \<Rightarrow> Inl e
                     | Inr np2 \<Rightarrow> page_loop lib doc rest (new_doc @ [np2])))))"

text \<open>
  The body of the \<open>try\<close> of \<open>replace_text_in_pdf\<close> (lines 108 to 136): open the original
  again, build the new document, save it, print the success line. The two \<open>close\<close> calls
  change nothing that is observed here.
\<close>

definition replace_text_try ::
    "library \<Rightarrow> str \<Rightarrow> str \<Rightarrow> str list \<Rightarrow> world \<Rightarrow> (exn + unit) \<times> world" where
  "replace_text_try lib input_path output_path modified_page_texts st =
     (case fitz_open lib input_path of
        Inl e \<Rightarrow> (Inl e, st)
      | Inr doc \<Rightarrow>
          (case page_loop lib doc (zip (pages doc) modified_page_texts) [] of
             Inl e \<Rightarrow> (Inl e, st)
           | Inr new_doc \<Rightarrow>
               (case save_outcome lib output_path new_doc of
                  SaveFailed e partial \<Rightarrow>
                    (Inl e,
                     if partial then st\<lparr>files := (files st)(output_path \<mapsto> Partial)\<rparr>
                     else st)
                | SaveOk \<Rightarrow>
                    (Inr (),
                     print (check_mark @ ascii '' PDF processed successfully: '' @ output_path)
                       (st\<lparr>files := (files st)(output_path \<mapsto> Complete new_doc)\<rparr>)))))"

text \<open>The loop \<open>for text in page_texts\<close> that rewrites each page.\<close>

fun rewrite_loop ::
    "library \<Rightarrow> processor \<Rightarrow> str \<Rightarrow> str list \<Rightarrow> str list \<Rightarrow> world
      \<Rightarrow> (exn + str list) \<times> world" where
  "rewrite_loop lib self command [] modified_page_texts st = (Inr modified_page_texts, st)"
| "rewrite_loop lib self command (txt # txts) modified_page_texts st =
     (case process_command_with_gpt lib self txt command st of
        (Inl e, st') \<Rightarrow> (Inl e, st')
      | (Inr modified_text, st') \<Rightarrow>
          rewrite_loop lib self command txts (modified_page_texts @ [modified_text]) st')"

definition abort_message :: str where
  "abort_message = cross_mark @ ascii '' No text extracted from the PDF.''"

definition replace_text_in_pdf ::
    "library \<Rightarrow> processor \<Rightarrow> str \<Rightarrow> str \<Rightarrow> str \<Rightarrow> world \<Rightarrow> (exn + unit) \<times> world" where
  "replace_text_in_pdf lib self input_filename output_filename command st =
     (let input_path = os_path_join (input_dir self) input_filename;
          output_path = os_path_join (output_dir self) output_filename
      in case extract_text_from_pdf lib input_path st of
           (Inl e, st1) \<Rightarrow> (Inl e, st1)
         | (Inr page_texts, st1) \<Rightarrow>
             if page_texts = [] then (Inr (), print abort_message st1)
             else
               (case rewrite_loop lib self command page_texts [] st1 of
                  (Inl e, st2) \<Rightarrow> (Inl e, st2)
                | (Inr modified_page_texts, st2) \<Rightarrow>
                    (case replace_text_try lib input_path output_path modified_page_texts st2 of
                       (Inr u, st3) \<Rightarrow> (Inr (), st3)
                     | (Inl e, st3) \<Rightarrow>
                         (Inr (),
                          print (cross_mark @ ascii '' Error processing PDF: '' @ exn_msg e)
                            st3))))"

section \<open>What a finished page must hold\<close>

text \<open>
  \<open>image_drawn\<close>: the insertion \<open>d\<close> is the one the image loop makes for the entry \<open>im\<close> of
  page \<open>pg\<close>. \<open>page_built\<close>: the new page \<open>np\<close> is the one the page loop makes for \<open>pg\<close>
  and its rewritten text.
\<close>

definition image_drawn :: "document \<Rightarrow> page \<Rightarrow> img \<Rightarrow> draw_op \<Rightarrow> bool" where
  "image_drawn doc pg im d =
     (case extract_image doc (xref im) of
        Inl e \<Rightarrow> False
      | Inr base \<Rightarrow>
          (case image base of
             None \<Rightarrow> False
           | Some image_bytes \<Rightarrow> d = InsertImage (rect pg) image_bytes))"

definition page_built :: "document \<Rightarrow> page \<times> str \<Rightarrow> new_page \<Rightarrow> bool" where
  "page_built doc pt np =
     (np_width np = width (rect (fst pt)) \<and> np_height np = height (rect (fst pt)) \<and>
      (case get_images (fst pt) of
         Inl e \<Rightarrow> False
       | Inr ims \<Rightarrow>
           (case contents np of
              [] \<Rightarrow> False
            | d # ds \<Rightarrow>
                d = InsertText (50, 50) (snd pt) 11 None \<and>
                list_all2 (image_drawn doc (fst pt)) ims ds)))"

section \<open>Concrete environments\<close>

text \<open>Three start-ups: the key in the \<open>.env\<close> file, no key anywhere, a key that is empty.\<close>

definition demo_system :: system where
  "demo_system =
     \<lparr>environ = Map.empty,
      dotenv = [ascii ''OPENAI_API_KEY'' \<mapsto> ascii ''sk-test''],
      file_dir = ascii ''/app/src'',
      openai_error = (\<lambda>k. None),
      makedirs_error = (\<lambda>d. None)\<rparr>"

definition keyless_system :: system where
  "keyless_system = demo_system\<lparr>dotenv := Map.empty\<rparr>"

definition empty_key_system :: system where
  "empty_key_system = demo_system\<lparr>environ := [ascii ''OPENAI_API_KEY'' \<mapsto> []]\<rparr>"

text \<open>
  A run of the scenario of the specification: two pages of 612 by 792, the first with one
  image. \<open>in/a.pdf\<close> is that document, \<open>in/empty.pdf\<close> has no page, the second page of
  \<open>in/bad.pdf\<close> cannot be read, every other path is missing. The service answers the
  first request and refuses every later one.
\<close>

definition demo_rect :: rect where
  "demo_rect = \<lparr>x0 = 0, y0 = 0, width = 612, height = 792\<rparr>"

definition demo_img :: img where
  "demo_img = \<lparr>xref = 7, smask = 0, img_width = 2, img_height = 1\<rparr>"

definition demo_page1 :: page where
  "demo_page1 =
     \<lparr>get_text = Inr (ascii ''Hello Startup''), rect = demo_rect,
      get_images = Inr [demo_img]\<rparr>"

definition demo_page2 :: page where
  "demo_page2 =
     \<lparr>get_text = Inr (ascii ''Startup rocks''), rect = demo_rect, get_images = Inr []\<rparr>"

definition demo_extract_image :: "nat \<Rightarrow> exn + base_image" where
  "demo_extract_image x =
     (if x = 7 then Inr \<lparr>ext = ascii ''png'', image = Some [137, 80, 78, 71]\<rparr>
      else Inr \<lparr>ext = [], image = None\<rparr>)"

definition demo_doc :: document where
  "demo_doc = \<lparr>pages = [demo_page1, demo_page2], extract_image = demo_extract_image\<rparr>"

definition empty_doc :: document where
  "empty_doc = \<lparr>pages = [], extract_image = demo_extract_image\<rparr>"

definition page_error :: exn where
  "page_error = Exception (ascii ''RuntimeError'') (ascii ''cannot load page'')"

definition bad_doc :: document where
  "bad_doc =
     \<lparr>pages = [demo_page1, demo_page2\<lparr>get_text := Inl page_error\<rparr>],
      extract_image = demo_extract_image\<rparr>"

definition file_not_found :: exn where
  "file_not_found = Exception (ascii ''FileNotFoundError'') (ascii ''no such file'')"

definition rate_limit :: exn where
  "rate_limit = Exception (ascii ''RateLimitError'') (ascii ''quota exceeded'')"

definition disk_full :: exn where
  "disk_full = Exception (ascii ''RuntimeError'') (ascii ''cannot write'')"

definition demo_open :: "str \<Rightarrow> exn + document" where
  "demo_open p =
     (if p = ascii ''in/a.pdf'' then Inr demo_doc
      else if p = ascii ''in/empty.pdf'' then Inr empty_doc
      else if p = ascii ''in/bad.pdf'' then Inr bad_doc
      else Inl file_not_found)"

definition demo_chat :: "str \<Rightarrow> request list \<Rightarrow> request \<Rightarrow> exn + response" where
  "demo_chat k sent req =
     (if sent = [] then Inr \<lparr>choices = [Some ([32] @ ascii ''Hello Enterprise'' @ [10])]\<rparr>
      else Inl rate_limit)"

definition demo_lib :: library where
  "demo_lib =
     \<lparr>fitz_open = demo_open,
      new_page_error = (\<lambda>w h. None),
      insert_text_error = (\<lambda>pt s f. None),
      insert_image_error = (\<lambda>r b. None),
      save_outcome = (\<lambda>p d. SaveOk),
      chat_completions_create = demo_chat\<rparr>"

definition full_disk_lib :: library where
  "full_disk_lib = demo_lib\<lparr>save_outcome := (\<lambda>p d. SaveFailed disk_full True)\<rparr>"

definition demo_self :: processor where
  "demo_self =
     \<lparr>api_key = ascii ''sk-test'', script_dir = ascii ''src'',
      input_dir = ascii ''in'', output_dir = ascii ''out''\<rparr>"

definition world0 :: world where
  "world0 = \<lparr>stdout = [], requests = [], files = Map.empty\<rparr>"

definition demo_command :: str where
  "demo_command = ascii ''Replace Startup with Enterprise''"

text \<open>
  The state after the two rewrite calls of that run (the second one refused), and the
  document the run builds.
\<close>

definition demo_world2 :: world where
  "demo_world2 =
     \<lparr>stdout = [ascii ''Error processing with GPT: '' @ exn_msg rate_limit],
      requests =
        [gpt_request (ascii ''Hello Startup'') demo_command,
         gpt_request (ascii ''Startup rocks'') demo_command],
      files = Map.empty\<rparr>"

definition demo_new_doc :: "new_page list" where
  "demo_new_doc =
     [\<lparr>np_width = 612, np_height = 792,
       contents =
         [InsertText (50, 50) (ascii ''Hello Enterprise'') 11 None,
          InsertImage demo_rect [137, 80, 78, 71]]\<rparr>,
      \<lparr>np_width = 612, np_height = 792,
       contents = [InsertText (50, 50) (ascii ''Startup rocks'') 11 None]\<rparr>]"

definition demo_world3 :: world where
  "demo_world3 =
     print (check_mark @ ascii '' PDF processed successfully: '' @ ascii ''out/b.pdf'')
       (demo_world2\<lparr>files :=
          (files demo_world2)(ascii ''out/b.pdf'' \<mapsto> Complete demo_new_doc)\<rparr>)"

section \<open>The key check of the constructor\<close>

text \<open>
  Claim C9, as stated, says that a key that is present never makes the constructor raise
  for the key. A variable that is set to the empty string is present, and the constructor
  raises the key error.
\<close>

theorem init_key_present_counterexample:
  "environ empty_key_system (ascii ''OPENAI_API_KEY'') = Some [] \<and>
   init empty_key_system = Inl key_not_found"
  by (simp add: empty_key_system_def demo_system_def init_def os_getenv_def load_dotenv_def)

text \<open>
  Claim C9, amended: the constructor raises the key error when the key is absent or empty
  after \<open>load_dotenv\<close>. When the key is not empty, an exception of the constructor is one
  that the client constructor or \<open>os.makedirs\<close> raised, and when neither raises the
  processor is built with that key. Every processor that is built holds a key that is not
  empty, so no call ever runs without one.
\<close>

theorem init_key_check:
  "(os_getenv sys (ascii ''OPENAI_API_KEY'') = None \<or>
    os_getenv sys (ascii ''OPENAI_API_KEY'') = Some [] \<longrightarrow> init sys = Inl key_not_found) \<and>
   (\<forall>k. os_getenv sys (ascii ''OPENAI_API_KEY'') = Some k \<and> k \<noteq> [] \<longrightarrow>
      (\<forall>e. init sys = Inl e \<longrightarrow>
         openai_error sys k = Some e \<or>
         makedirs_error sys
           (os_path_join (os_path_join (file_dir sys) (ascii ''..'')) (ascii ''output'')) = Some e) \<and>
      (openai_error sys k = None \<and>
       makedirs_error sys
         (os_path_join (os_path_join (file_dir sys) (ascii ''..'')) (ascii ''output'')) = None \<longrightarrow>
       (\<exists>p. init sys = Inr p \<and> api_key p = k))) \<and>
   (\<forall>p. init sys = Inr p \<longrightarrow>
      api_key p \<noteq> [] \<and> os_getenv sys (ascii ''OPENAI_API_KEY'') = Some (api_key p))"
  by (auto simp add: init_def Let_def split: option.splits if_splits)

theorem init_key_check_witness:
  "init keyless_system = Inl key_not_found \<and>
   init empty_key_system = Inl key_not_found \<and>
   (\<exists>p. init demo_system = Inr p \<and> api_key p = ascii ''sk-test'')"
proof -
  have a: "os_getenv keyless_system (ascii ''OPENAI_API_KEY'') = None"
    by (simp add: keyless_system_def demo_system_def os_getenv_def load_dotenv_def)
  have b: "os_getenv empty_key_system (ascii ''OPENAI_API_KEY'') = Some []"
    by (simp add: empty_key_system_def demo_system_def os_getenv_def load_dotenv_def)
  have c: "os_getenv demo_system (ascii ''OPENAI_API_KEY'') = Some (ascii ''sk-test'')"
    by (simp add: demo_system_def os_getenv_def load_dotenv_def)
  have d: "ascii ''sk-test'' \<noteq> []" by (simp add: ascii_def)
  have e: "openai_error demo_system (ascii ''sk-test'') = None"
    "makedirs_error demo_system
       (os_path_join (os_path_join (file_dir demo_system) (ascii ''..'')) (ascii ''output'')) = None"
    by (simp_all add: demo_system_def)
  from init_key_check [of keyless_system] a
  have 1: "init keyless_system = Inl key_not_found" by blast
  from init_key_check [of empty_key_system] b
  have 2: "init empty_key_system = Inl key_not_found" by blast
  from init_key_check [of demo_system] c d e
  have 3: "\<exists>p. init demo_system = Inr p \<and> api_key p = ascii ''sk-test''" by blast
  from 1 2 3 show ?thesis by blast
qed

section \<open>Facts about the loops\<close>

lemma print_fields [simp]:
  "requests (print l st) = requests st" "files (print l st) = files st"
  "stdout (print l st) = stdout st @ [l]"
  by (simp_all add: print_def)

text \<open>\<open>strip\<close> removes a run of whitespace at each end, and nothing else.\<close>

lemma strip_nonempty_ends:
  assumes "strip s \<noteq> []"
  shows "\<not> isspace (hd (strip s)) \<and> \<not> isspace (last (strip s))"
proof -
  define ys where "ys = dropWhile isspace s"
  define zs where "zs = dropWhile isspace (rev ys)"
  have st: "strip s = rev zs" by (simp add: strip_def ys_def zs_def)
  with assms have zs: "zs \<noteq> []" by simp
  have l: "\<not> isspace (hd zs)" using zs unfolding zs_def by (rule hd_dropWhile)
  have "rev ys \<noteq> []" using zs unfolding zs_def by auto
  then have ys: "ys \<noteq> []" by simp
  have "\<exists>pre. rev ys = pre @ zs" unfolding zs_def
    by (metis takeWhile_dropWhile_id)
  then obtain pre where pre: "rev ys = pre @ zs" ..
  have "last zs = last (rev ys)" using pre zs by simp
  also have "\<dots> = hd ys" using ys by (simp add: last_rev)
  finally have lz: "last zs = hd ys" .
  have "\<not> isspace (hd ys)" using ys unfolding ys_def by (rule hd_dropWhile)
  then have h: "\<not> isspace (last zs)" by (simp add: lz)
  show ?thesis using l h zs by (simp add: st hd_rev last_rev)
qed

lemma strip_decomposes:
  "\<exists>a b. s = a @ strip s @ b \<and> list_all isspace a \<and> list_all isspace b"
proof -
  define ys where "ys = dropWhile isspace s"
  define a where "a = takeWhile isspace s"
  define b where "b = rev (takeWhile isspace (rev ys))"
  have 1: "s = a @ ys" by (simp add: a_def ys_def)
  have "ys = rev (takeWhile isspace (rev ys) @ dropWhile isspace (rev ys))"
    by (simp only: takeWhile_dropWhile_id rev_rev_ident)
  also have "\<dots> = rev (dropWhile isspace (rev ys)) @ rev (takeWhile isspace (rev ys))"
    by (simp only: rev_append)
  finally have 2: "ys = strip s @ b" by (simp only: strip_def b_def ys_def)
  have 3: "list_all isspace a" unfolding a_def list_all_iff by (auto dest: set_takeWhileD)
  have 4: "list_all isspace b" unfolding b_def list_all_iff by (auto dest: set_takeWhileD)
  show ?thesis using 1 2 3 4 by auto
qed

text \<open>The extraction loop: all pages read, or the first page that fails.\<close>

lemma extract_loop_all_read:
  "map get_text ps = map Inr ts \<Longrightarrow> extract_loop ps acc = Inr (acc @ ts)"
proof (induction ps arbitrary: acc ts)
  case Nil
  then show ?case by simp
next
  case (Cons p ps)
  from Cons.prems obtain t ts' where ts: "ts = t # ts'" "get_text p = Inr t"
    "map get_text ps = map Inr ts'"
    by (cases ts) auto
  from Cons.IH [OF ts(3)] ts show ?case by simp
qed

lemma extract_loop_first_failure:
  "k < length ps \<Longrightarrow> get_text (ps ! k) = Inl e \<Longrightarrow>
   \<forall>j<k. \<exists>t. get_text (ps ! j) = Inr t \<Longrightarrow> extract_loop ps acc = Inl e"
proof (induction ps arbitrary: k acc)
  case Nil
  then show ?case by simp
next
  case (Cons p ps)
  show ?case
  proof (cases k)
    case 0
    with Cons.prems show ?thesis by simp
  next
    case (Suc k')
    from Cons.prems(3) Suc obtain t where t: "get_text p = Inr t" by fastforce
    have later: "\<forall>j<k'. \<exists>t. get_text (ps ! j) = Inr t"
    proof (intro allI impI)
      fix j assume "j < k'"
      then have "Suc j < k" using Suc by simp
      with Cons.prems(3) have "\<exists>t. get_text ((p # ps) ! Suc j) = Inr t" by blast
      then show "\<exists>t. get_text (ps ! j) = Inr t" by simp
    qed
    from Cons.prems Suc have "k' < length ps" "get_text (ps ! k') = Inl e" by simp_all
    from Cons.IH [OF this later] t show ?thesis by simp
  qed
qed

text \<open>Neither \<open>extract_text_from_pdf\<close> nor \<open>process_command_with_gpt\<close> lets an exception out.\<close>

lemma extract_never_raises:
  "\<exists>ts st'. extract_text_from_pdf lib p st = (Inr ts, st') \<and>
     requests st' = requests st \<and> files st' = files st"
  by (simp add: extract_text_from_pdf_def split: sum.splits)

lemma process_command_never_raises:
  "\<exists>m st'. process_command_with_gpt lib self t c st = (Inr m, st') \<and> files st' = files st"
  by (simp add: process_command_with_gpt_def process_command_try_def Let_def
      split: sum.splits list.splits option.splits prod.splits)

lemma rewrite_loop_result:
  "\<exists>ms st'. rewrite_loop lib self c ts acc st = (Inr (acc @ ms), st') \<and>
     length ms = length ts \<and> files st' = files st"
proof (induction ts arbitrary: acc st)
  case Nil
  then show ?case by simp
next
  case (Cons t ts)
  obtain m st1 where p: "process_command_with_gpt lib self t c st = (Inr m, st1)"
    and f1: "files st1 = files st"
    using process_command_never_raises by blast
  from Cons.IH [of "acc @ [m]" st1] obtain ms st' where
    r: "rewrite_loop lib self c ts (acc @ [m]) st1 = (Inr ((acc @ [m]) @ ms), st')"
    and l: "length ms = length ts" and f: "files st' = files st1"
    by blast
  have "rewrite_loop lib self c (t # ts) acc st = (Inr (acc @ (m # ms)), st')"
    using p r by simp
  moreover have "length (m # ms) = length (t # ts)" using l by simp
  ultimately show ?case using f f1 by metis
qed

text \<open>The image loop and the page loop: what a page that was built holds.\<close>

lemma image_loop_result:
  "image_loop lib doc pg ims np = Inr np' \<Longrightarrow>
   np_width np' = np_width np \<and> np_height np' = np_height np \<and>
   (\<exists>ds. contents np' = contents np @ ds \<and> list_all2 (image_drawn doc pg) ims ds)"
proof (induction ims arbitrary: np)
  case Nil
  then show ?case by simp
next
  case (Cons im ims)
  from Cons.prems obtain base b np1 where
    e: "extract_image doc (xref im) = Inr base" and b: "image base = Some b"
    and i: "insert_image lib (rect pg) b np = Inr np1"
    and r: "image_loop lib doc pg ims np1 = Inr np'"
    by (auto split: sum.splits option.splits)
  from i have np1: "np1 = np\<lparr>contents := contents np @ [InsertImage (rect pg) b]\<rparr>"
    by (auto simp add: insert_image_def split: option.splits)
  from Cons.IH [OF r] obtain ds where
    w: "np_width np' = np_width np1" "np_height np' = np_height np1"
    and c: "contents np' = contents np1 @ ds"
    and a: "list_all2 (image_drawn doc pg) ims ds"
    by blast
  have d: "image_drawn doc pg im (InsertImage (rect pg) b)"
    by (simp add: image_drawn_def e b)
  have "contents np' = contents np @ (InsertImage (rect pg) b # ds)"
    using c np1 by simp
  moreover have "list_all2 (image_drawn doc pg) (im # ims) (InsertImage (rect pg) b # ds)"
    using a d by simp
  ultimately show ?case using w np1 by auto
qed

lemma page_loop_result:
  "page_loop lib doc pts acc = Inr nd \<Longrightarrow>
   \<exists>nps. nd = acc @ nps \<and> list_all2 (page_built doc) pts nps"
proof (induction pts arbitrary: acc)
  case Nil
  then show ?case by simp
next
  case (Cons pt pts)
  obtain pg mt where pt: "pt = (pg, mt)" by (cases pt)
  from Cons.prems pt obtain np np1 ims np2 where
    n: "new_doc_new_page lib (width (rect pg)) (height (rect pg)) = Inr np"
    and t: "insert_text lib (50, 50) mt 11 np = Inr np1"
    and g: "get_images pg = Inr ims"
    and l: "image_loop lib doc pg ims np1 = Inr np2"
    and r: "page_loop lib doc pts (acc @ [np2]) = Inr nd"
    by (auto split: sum.splits)
  from n have np: "np = \<lparr>np_width = width (rect pg), np_height = height (rect pg), contents = []\<rparr>"
    by (auto simp add: new_doc_new_page_def split: option.splits)
  from t have np1: "np1 = np\<lparr>contents := contents np @ [InsertText (50, 50) mt 11 None]\<rparr>"
    by (auto simp add: insert_text_def split: option.splits)
  from image_loop_result [OF l] obtain ds where
    w: "np_width np2 = np_width np1" "np_height np2 = np_height np1"
    and c: "contents np2 = contents np1 @ ds"
    and a: "list_all2 (image_drawn doc pg) ims ds"
    by blast
  have built: "page_built doc pt np2"
    using w c a g by (simp add: page_built_def pt np np1)
  from Cons.IH [OF r] obtain nps where
    nd: "nd = (acc @ [np2]) @ nps" and all: "list_all2 (page_built doc) pts nps"
    by blast
  have "nd = acc @ (np2 # nps)" using nd by simp
  moreover have "list_all2 (page_built doc) (pt # pts) (np2 # nps)" using built all by simp
  ultimately show ?case by blast
qed

lemma replace_text_try_success:
  assumes "replace_text_try lib inp outp ms st = (Inr u, st')"
  shows "\<exists>doc nd. fitz_open lib inp = Inr doc \<and>
           page_loop lib doc (zip (pages doc) ms) [] = Inr nd \<and>
           save_outcome lib outp nd = SaveOk \<and>
           st' = print (check_mark @ ascii '' PDF processed successfully: '' @ outp)
                   (st\<lparr>files := (files st)(outp \<mapsto> Complete nd)\<rparr>)"
  using assms
  by (auto simp add: replace_text_try_def split: sum.splits save_outcome.splits if_splits)

section \<open>The concrete run, evaluated\<close>

lemma demo_paths:
  "os_path_join (input_dir demo_self) (ascii ''a.pdf'') = ascii ''in/a.pdf''"
  "os_path_join (input_dir demo_self) (ascii ''empty.pdf'') = ascii ''in/empty.pdf''"
  "os_path_join (input_dir demo_self) (ascii ''bad.pdf'') = ascii ''in/bad.pdf''"
  "os_path_join (input_dir demo_self) (ascii ''none.pdf'') = ascii ''in/none.pdf''"
  "os_path_join (output_dir demo_self) (ascii ''b.pdf'') = ascii ''out/b.pdf''"
  by (simp_all add: os_path_join_def demo_self_def ascii_def)

lemma demo_open_values:
  "demo_open (ascii ''in/a.pdf'') = Inr demo_doc"
  "demo_open (ascii ''in/empty.pdf'') = Inr empty_doc"
  "demo_open (ascii ''in/bad.pdf'') = Inr bad_doc"
  "demo_open (ascii ''in/none.pdf'') = Inl file_not_found"
  by (simp_all add: demo_open_def ascii_def)

section \<open>Extraction returns one text per page\<close>

text \<open>
  Claim C3: for a document that opens and whose \<open>N\<close> pages all give their text, with
  \<open>ts\<close> the texts in page order, \<open>extract_text_from_pdf\<close> returns exactly \<open>ts\<close>: a list of
  \<open>N\<close> strings whose entry \<open>i\<close> is the text of page \<open>i\<close>. Nothing is printed.
\<close>

theorem extract_returns_page_texts:
  assumes "fitz_open lib pdf_path = Inr doc"
    and "map get_text (pages doc) = map Inr ts"
  shows "extract_text_from_pdf lib pdf_path st = (Inr ts, st) \<and>
         length ts = length (pages doc) \<and>
         (\<forall>i<length (pages doc). get_text (pages doc ! i) = Inr (ts ! i))"
proof -
  have "extract_loop (pages doc) [] = Inr ([] @ ts)"
    using assms(2) by (rule extract_loop_all_read)
  then have 1: "extract_text_from_pdf lib pdf_path st = (Inr ts, st)"
    using assms(1) by (simp add: extract_text_from_pdf_def extract_text_try_def)
  have "length (map get_text (pages doc)) = length (map Inr ts :: (exn + str) list)"
    using assms(2) by simp
  then have 2: "length ts = length (pages doc)" by simp
  have 3: "\<forall>i<length (pages doc). get_text (pages doc ! i) = Inr (ts ! i)"
  proof (intro allI impI)
    fix i assume i: "i < length (pages doc)"
    then have "map get_text (pages doc) ! i = get_text (pages doc ! i)" by simp
    moreover have "(map Inr ts :: (exn + str) list) ! i = Inr (ts ! i)" using i 2 by simp
    ultimately show "get_text (pages doc ! i) = Inr (ts ! i)" using assms(2) by simp
  qed
  from 1 2 3 show ?thesis by blast
qed

theorem extract_returns_page_texts_witness:
  "extract_text_from_pdf demo_lib (ascii ''in/a.pdf'') world0 =
     (Inr [ascii ''Hello Startup'', ascii ''Startup rocks''], world0) \<and>
   length [ascii ''Hello Startup'', ascii ''Startup rocks''] = length (pages demo_doc)"
proof -
  have o: "fitz_open demo_lib (ascii ''in/a.pdf'') = Inr demo_doc"
    by (simp add: demo_lib_def demo_open_values)
  have t: "map get_text (pages demo_doc) =
             map Inr [ascii ''Hello Startup'', ascii ''Startup rocks'']"
    by (simp add: demo_doc_def demo_page1_def demo_page2_def)
  from extract_returns_page_texts [OF o t, of world0] show ?thesis by blast
qed

section \<open>Extraction failure\<close>

text \<open>
  Claim C4: when opening the document raises, or when the document opens and reading
  the text of some page raises (every earlier page having been read),
  \<open>extract_text_from_pdf\<close> returns the empty list, prints the error line, and lets no
  exception out (the result is \<open>Inr\<close>).
\<close>

theorem extract_failure_gives_empty:
  "(fitz_open lib pdf_path = Inl e \<longrightarrow>
      extract_text_from_pdf lib pdf_path st =
        (Inr [], print (ascii ''Error extracting text: '' @ exn_msg e) st)) \<and>
   (fitz_open lib pdf_path = Inr doc \<and> k < length (pages doc) \<and>
    get_text (pages doc ! k) = Inl e \<and>
    (\<forall>j<k. \<exists>t. get_text (pages doc ! j) = Inr t) \<longrightarrow>
      extract_text_from_pdf lib pdf_path st =
        (Inr [], print (ascii ''Error extracting text: '' @ exn_msg e) st))"
proof (intro conjI impI)
  assume "fitz_open lib pdf_path = Inl e"
  then show "extract_text_from_pdf lib pdf_path st =
      (Inr [], print (ascii ''Error extracting text: '' @ exn_msg e) st)"
    by (simp add: extract_text_from_pdf_def extract_text_try_def)
next
  assume a: "fitz_open lib pdf_path = Inr doc \<and> k < length (pages doc) \<and>
    get_text (pages doc ! k) = Inl e \<and>
    (\<forall>j<k. \<exists>t. get_text (pages doc ! j) = Inr t)"
  then have "extract_loop (pages doc) [] = Inl e"
    using extract_loop_first_failure [of k "pages doc" e "[]"] by blast
  with a show "extract_text_from_pdf lib pdf_path st =
      (Inr [], print (ascii ''Error extracting text: '' @ exn_msg e) st)"
    by (simp add: extract_text_from_pdf_def extract_text_try_def)
qed

theorem extract_failure_gives_empty_witness:
  "extract_text_from_pdf demo_lib (ascii ''in/none.pdf'') world0 =
     (Inr [], print (ascii ''Error extracting text: '' @ exn_msg file_not_found) world0) \<and>
   extract_text_from_pdf demo_lib (ascii ''in/bad.pdf'') world0 =
     (Inr [], print (ascii ''Error extracting text: '' @ exn_msg page_error) world0)"
proof -
  have o1: "fitz_open demo_lib (ascii ''in/none.pdf'') = Inl file_not_found"
    by (simp add: demo_lib_def demo_open_values)
  have o2: "fitz_open demo_lib (ascii ''in/bad.pdf'') = Inr bad_doc"
    by (simp add: demo_lib_def demo_open_values)
  have p: "(1::nat) < length (pages bad_doc)" "get_text (pages bad_doc ! 1) = Inl page_error"
    "\<forall>j<(1::nat). \<exists>t. get_text (pages bad_doc ! j) = Inr t"
    by (simp_all add: bad_doc_def demo_page1_def demo_page2_def)
  from extract_failure_gives_empty [of demo_lib "ascii ''in/none.pdf''" file_not_found world0] o1
  have 1: "extract_text_from_pdf demo_lib (ascii ''in/none.pdf'') world0 =
     (Inr [], print (ascii ''Error extracting text: '' @ exn_msg file_not_found) world0)"
    by blast
  from extract_failure_gives_empty
    [of demo_lib "ascii ''in/bad.pdf''" page_error world0 bad_doc 1] o2 p
  have 2: "extract_text_from_pdf demo_lib (ascii ''in/bad.pdf'') world0 =
     (Inr [], print (ascii ''Error extracting text: '' @ exn_msg page_error) world0)"
    by blast
  from 1 2 show ?thesis by blast
qed

section \<open>The rewrite call and its fallback\<close>

text \<open>
  Claim C2: when the completion call returns a response whose first choice holds the
  text \<open>s\<close>, \<open>process_command_with_gpt\<close> returns \<open>s\<close> stripped: \<open>s\<close> without a run of
  whitespace at each end, so that the result neither starts nor ends with whitespace.
  When the call raises, it returns the input text unchanged and prints the error; no
  exception leaves it in either case.
\<close>

theorem process_command_result:
  "(chat_completions_create lib (api_key self) (requests st) (gpt_request t c) = Inr resp \<and>
    choices resp = Some s # cs \<longrightarrow>
      process_command_with_gpt lib self t c st =
        (Inr (strip s), st\<lparr>requests := requests st @ [gpt_request t c]\<rparr>) \<and>
      (strip s = [] \<or> \<not> isspace (hd (strip s)) \<and> \<not> isspace (last (strip s))) \<and>
      (\<exists>a b. s = a @ strip s @ b \<and> list_all isspace a \<and> list_all isspace b)) \<and>
   (chat_completions_create lib (api_key self) (requests st) (gpt_request t c) = Inl e \<longrightarrow>
      process_command_with_gpt lib self t c st =
        (Inr t, print (ascii ''Error processing with GPT: '' @ exn_msg e)
                  (st\<lparr>requests := requests st @ [gpt_request t c]\<rparr>)))"
proof (intro conjI impI)
  assume a: "chat_completions_create lib (api_key self) (requests st) (gpt_request t c) = Inr resp \<and>
    choices resp = Some s # cs"
  then show "process_command_with_gpt lib self t c st =
        (Inr (strip s), st\<lparr>requests := requests st @ [gpt_request t c]\<rparr>)"
    by (simp add: process_command_with_gpt_def process_command_try_def Let_def)
  show "strip s = [] \<or> \<not> isspace (hd (strip s)) \<and> \<not> isspace (last (strip s))"
    using strip_nonempty_ends [of s] by blast
  show "\<exists>a b. s = a @ strip s @ b \<and> list_all isspace a \<and> list_all isspace b"
    by (rule strip_decomposes)
next
  assume "chat_completions_create lib (api_key self) (requests st) (gpt_request t c) = Inl e"
  then show "process_command_with_gpt lib self t c st =
        (Inr t, print (ascii ''Error processing with GPT: '' @ exn_msg e)
                  (st\<lparr>requests := requests st @ [gpt_request t c]\<rparr>))"
    by (simp add: process_command_with_gpt_def process_command_try_def Let_def)
qed

theorem process_command_result_witness:
  "process_command_with_gpt demo_lib demo_self (ascii ''Hello Startup'') demo_command world0 =
     (Inr (strip ([32] @ ascii ''Hello Enterprise'' @ [10])),
      world0\<lparr>requests := requests world0 @ [gpt_request (ascii ''Hello Startup'') demo_command]\<rparr>) \<and>
   strip ([32] @ ascii ''Hello Enterprise'' @ [10]) = ascii ''Hello Enterprise'' \<and>
   process_command_with_gpt demo_lib demo_self (ascii ''Startup rocks'') demo_command
       (world0\<lparr>requests := [gpt_request (ascii ''Hello Startup'') demo_command]\<rparr>) =
     (Inr (ascii ''Startup rocks''),
      print (ascii ''Error processing with GPT: '' @ exn_msg rate_limit)
        (world0\<lparr>requests := [gpt_request (ascii ''Hello Startup'') demo_command]\<rparr>
           \<lparr>requests :=
              requests (world0\<lparr>requests := [gpt_request (ascii ''Hello Startup'') demo_command]\<rparr>) @
              [gpt_request (ascii ''Startup rocks'') demo_command]\<rparr>))"
proof -
  have ok: "chat_completions_create demo_lib (api_key demo_self) (requests world0)
              (gpt_request (ascii ''Hello Startup'') demo_command) =
            Inr \<lparr>choices = [Some ([32] @ ascii ''Hello Enterprise'' @ [10])]\<rparr>"
    by (simp add: demo_lib_def demo_chat_def world0_def)
  have ch: "choices \<lparr>choices = [Some ([32] @ ascii ''Hello Enterprise'' @ [10])]\<rparr> =
            Some ([32] @ ascii ''Hello Enterprise'' @ [10]) # []"
    by simp
  have bad: "chat_completions_create demo_lib (api_key demo_self)
               (requests (world0\<lparr>requests := [gpt_request (ascii ''Hello Startup'') demo_command]\<rparr>))
               (gpt_request (ascii ''Startup rocks'') demo_command) = Inl rate_limit"
    by (simp add: demo_lib_def demo_chat_def)
  have s: "strip ([32] @ ascii ''Hello Enterprise'' @ [10]) = ascii ''Hello Enterprise''"
    by (simp add: strip_def ascii_def isspace_def)
  from process_command_result
    [of demo_lib demo_self world0 "ascii ''Hello Startup''" demo_command
        "\<lparr>choices = [Some ([32] @ ascii ''Hello Enterprise'' @ [10])]\<rparr>"
        "[32] @ ascii ''Hello Enterprise'' @ [10]" "[]"] ok ch
  have 1: "process_command_with_gpt demo_lib demo_self (ascii ''Hello Startup'') demo_command
             world0 =
           (Inr (strip ([32] @ ascii ''Hello Enterprise'' @ [10])),
            world0\<lparr>requests := requests world0 @
              [gpt_request (ascii ''Hello Startup'') demo_command]\<rparr>)"
    by blast
  from process_command_result
    [of demo_lib demo_self
        "world0\<lparr>requests := [gpt_request (ascii ''Hello Startup'') demo_command]\<rparr>"
        "ascii ''Startup rocks''" demo_command _ _ _ rate_limit] bad
  have 2: "process_command_with_gpt demo_lib demo_self (ascii ''Startup rocks'') demo_command
       (world0\<lparr>requests := [gpt_request (ascii ''Hello Startup'') demo_command]\<rparr>) =
     (Inr (ascii ''Startup rocks''),
      print (ascii ''Error processing with GPT: '' @ exn_msg rate_limit)
        (world0\<lparr>requests := [gpt_request (ascii ''Hello Startup'') demo_command]\<rparr>
           \<lparr>requests :=
              requests (world0\<lparr>requests := [gpt_request (ascii ''Hello Startup'') demo_command]\<rparr>) @
              [gpt_request (ascii ''Startup rocks'') demo_command]\<rparr>))"
    by blast
  from 1 s 2 show ?thesis by blast
qed

lemma demo_extract:
  "fitz_open lib = demo_open \<Longrightarrow>
   extract_text_from_pdf lib (ascii ''in/a.pdf'') world0 =
     (Inr [ascii ''Hello Startup'', ascii ''Startup rocks''], world0)"
  by (simp add: extract_text_from_pdf_def extract_text_try_def demo_open_values
      demo_doc_def demo_page1_def demo_page2_def)

lemma demo_rewrite:
  "chat_completions_create lib = demo_chat \<Longrightarrow>
   rewrite_loop lib demo_self demo_command
     [ascii ''Hello Startup'', ascii ''Startup rocks''] [] world0 =
     (Inr [ascii ''Hello Enterprise'', ascii ''Startup rocks''], demo_world2)"
  by (simp add: process_command_with_gpt_def process_command_try_def Let_def demo_chat_def
      world0_def demo_world2_def print_def strip_def isspace_def ascii_def)

lemma demo_page_loop:
  "new_page_error lib = (\<lambda>w h. None) \<Longrightarrow> insert_text_error lib = (\<lambda>pt s f. None) \<Longrightarrow>
   insert_image_error lib = (\<lambda>r b. None) \<Longrightarrow>
   page_loop lib demo_doc
     (zip (pages demo_doc) [ascii ''Hello Enterprise'', ascii ''Startup rocks'']) [] =
     Inr demo_new_doc"
  by (simp add: demo_doc_def demo_page1_def demo_page2_def demo_img_def
      demo_extract_image_def new_doc_new_page_def insert_text_def insert_image_def
      demo_new_doc_def demo_rect_def)

lemma demo_try_ok:
  "replace_text_try demo_lib (ascii ''in/a.pdf'') (ascii ''out/b.pdf'')
     [ascii ''Hello Enterprise'', ascii ''Startup rocks''] demo_world2 =
     (Inr (),
      print (check_mark @ ascii '' PDF processed successfully: '' @ ascii ''out/b.pdf'')
        (demo_world2\<lparr>files := (files demo_world2)(ascii ''out/b.pdf'' \<mapsto> Complete demo_new_doc)\<rparr>))"
proof -
  have "page_loop demo_lib demo_doc
     (zip (pages demo_doc) [ascii ''Hello Enterprise'', ascii ''Startup rocks'']) [] =
     Inr demo_new_doc"
    by (rule demo_page_loop) (simp_all add: demo_lib_def)
  then show ?thesis
    by (simp add: replace_text_try_def demo_lib_def demo_open_values)
qed

lemma demo_try_full_disk:
  "replace_text_try full_disk_lib (ascii ''in/a.pdf'') (ascii ''out/b.pdf'')
     [ascii ''Hello Enterprise'', ascii ''Startup rocks''] demo_world2 =
     (Inl disk_full, demo_world2\<lparr>files := (files demo_world2)(ascii ''out/b.pdf'' \<mapsto> Partial)\<rparr>)"
proof -
  have "page_loop full_disk_lib demo_doc
     (zip (pages demo_doc) [ascii ''Hello Enterprise'', ascii ''Startup rocks'']) [] =
     Inr demo_new_doc"
    by (rule demo_page_loop) (simp_all add: full_disk_lib_def demo_lib_def)
  then show ?thesis
    by (simp add: replace_text_try_def full_disk_lib_def demo_lib_def demo_open_values)
qed

section \<open>The abort on an empty extraction\<close>

text \<open>
  Claim C5: whenever extraction gives the empty list, \<open>replace_text_in_pdf\<close> prints the
  message and returns: the requests sent and the files written are those of the start,
  so no rewrite call is made and no output file is produced.
\<close>

theorem replace_aborts_on_empty_extraction:
  assumes "extract_text_from_pdf lib (os_path_join (input_dir self) infile) st = (Inr [], st1)"
  shows "replace_text_in_pdf lib self infile outfile c st = (Inr (), print abort_message st1) \<and>
         stdout (print abort_message st1) = stdout st1 @ [abort_message] \<and>
         requests (print abort_message st1) = requests st \<and>
         files (print abort_message st1) = files st"
proof -
  have 1: "replace_text_in_pdf lib self infile outfile c st = (Inr (), print abort_message st1)"
    using assms by (simp add: replace_text_in_pdf_def Let_def)
  obtain ts st' where e: "extract_text_from_pdf lib (os_path_join (input_dir self) infile) st =
      (Inr ts, st')" and r: "requests st' = requests st" and f: "files st' = files st"
    using extract_never_raises by blast
  from e assms have "st' = st1" by simp
  with r f have "requests st1 = requests st" "files st1 = files st" by simp_all
  with 1 show ?thesis by simp
qed

theorem replace_aborts_on_empty_extraction_witness:
  "replace_text_in_pdf demo_lib demo_self (ascii ''none.pdf'') (ascii ''b.pdf'') demo_command
     world0 =
     (Inr (), print abort_message
                (print (ascii ''Error extracting text: '' @ exn_msg file_not_found) world0)) \<and>
   requests (print abort_message
       (print (ascii ''Error extracting text: '' @ exn_msg file_not_found) world0)) =
     requests world0 \<and>
   files (print abort_message
       (print (ascii ''Error extracting text: '' @ exn_msg file_not_found) world0)) =
     files world0"
proof -
  have e: "extract_text_from_pdf demo_lib (os_path_join (input_dir demo_self) (ascii ''none.pdf''))
             world0 =
           (Inr [], print (ascii ''Error extracting text: '' @ exn_msg file_not_found) world0)"
    by (simp add: extract_text_from_pdf_def extract_text_try_def demo_paths demo_lib_def
        demo_open_values)
  from replace_aborts_on_empty_extraction [OF e, of "ascii ''b.pdf''" demo_command]
  show ?thesis by blast
qed

section \<open>A document without pages\<close>

text \<open>
  Claim C10: for a document that opens and has no page, \<open>extract_text_from_pdf\<close> returns
  the empty list and prints nothing, and \<open>replace_text_in_pdf\<close> takes the abort branch:
  it prints the message and writes no file. Compared with an input that cannot be
  opened, the returned value, the files, the requests sent and the last line printed
  are the same; the unreadable input has the line of the extractor before it.
\<close>

theorem empty_document_aborts_like_unreadable:
  assumes "fitz_open lib (os_path_join (input_dir self) infile) = Inr doc"
    and "pages doc = []"
    and "fitz_open lib (os_path_join (input_dir self) infile2) = Inl e"
  shows "extract_text_from_pdf lib (os_path_join (input_dir self) infile) st = (Inr [], st) \<and>
         replace_text_in_pdf lib self infile outfile c st = (Inr (), print abort_message st) \<and>
         replace_text_in_pdf lib self infile2 outfile c st =
           (Inr (), print abort_message
                      (print (ascii ''Error extracting text: '' @ exn_msg e) st)) \<and>
         fst (replace_text_in_pdf lib self infile outfile c st) =
           fst (replace_text_in_pdf lib self infile2 outfile c st) \<and>
         files (snd (replace_text_in_pdf lib self infile outfile c st)) = files st \<and>
         files (snd (replace_text_in_pdf lib self infile2 outfile c st)) = files st \<and>
         requests (snd (replace_text_in_pdf lib self infile outfile c st)) = requests st \<and>
         requests (snd (replace_text_in_pdf lib self infile2 outfile c st)) = requests st \<and>
         last (stdout (snd (replace_text_in_pdf lib self infile outfile c st))) = abort_message \<and>
         last (stdout (snd (replace_text_in_pdf lib self infile2 outfile c st))) = abort_message"
proof -
  have 1: "extract_text_from_pdf lib (os_path_join (input_dir self) infile) st = (Inr [], st)"
    using assms(1,2) by (simp add: extract_text_from_pdf_def extract_text_try_def)
  have 2: "extract_text_from_pdf lib (os_path_join (input_dir self) infile2) st =
      (Inr [], print (ascii ''Error extracting text: '' @ exn_msg e) st)"
    using assms(3) by (simp add: extract_text_from_pdf_def extract_text_try_def)
  have 3: "replace_text_in_pdf lib self infile outfile c st = (Inr (), print abort_message st)"
    using 1 by (simp add: replace_text_in_pdf_def Let_def)
  have 4: "replace_text_in_pdf lib self infile2 outfile c st =
      (Inr (), print abort_message (print (ascii ''Error extracting text: '' @ exn_msg e) st))"
    using 2 by (simp add: replace_text_in_pdf_def Let_def)
  show ?thesis using 1 by (simp add: 3 4)
qed

theorem empty_document_aborts_like_unreadable_witness:
  "extract_text_from_pdf demo_lib (os_path_join (input_dir demo_self) (ascii ''empty.pdf''))
     world0 = (Inr [], world0) \<and>
   replace_text_in_pdf demo_lib demo_self (ascii ''empty.pdf'') (ascii ''b.pdf'') demo_command
     world0 = (Inr (), print abort_message world0) \<and>
   files (snd (replace_text_in_pdf demo_lib demo_self (ascii ''empty.pdf'') (ascii ''b.pdf'')
     demo_command world0)) = files world0 \<and>
   fst (replace_text_in_pdf demo_lib demo_self (ascii ''empty.pdf'') (ascii ''b.pdf'')
     demo_command world0) =
   fst (replace_text_in_pdf demo_lib demo_self (ascii ''none.pdf'') (ascii ''b.pdf'')
     demo_command world0)"
proof -
  have a: "fitz_open demo_lib (os_path_join (input_dir demo_self) (ascii ''empty.pdf'')) =
      Inr empty_doc"
    by (simp add: demo_paths demo_lib_def demo_open_values)
  have b: "pages empty_doc = []" by (simp add: empty_doc_def)
  have c: "fitz_open demo_lib (os_path_join (input_dir demo_self) (ascii ''none.pdf'')) =
      Inl file_not_found"
    by (simp add: demo_paths demo_lib_def demo_open_values)
  from empty_document_aborts_like_unreadable [OF a b c, of world0 "ascii ''b.pdf''" demo_command]
  show ?thesis by blast
qed

section \<open>No exception leaves the reconstruction\<close>

lemma replace_text_try_failure:
  assumes "replace_text_try lib inp outp ms st = (Inl e, st')"
  shows "stdout st' = stdout st \<and> requests st' = requests st \<and>
         (files st' = files st \<or> files st' = (files st)(outp \<mapsto> Partial))"
  using assms
  by (auto simp add: replace_text_try_def split: sum.splits save_outcome.splits if_splits)

text \<open>
  Claim C8: \<open>replace_text_in_pdf\<close> always returns normally. When extraction gave pages,
  the rewrite loop ended, and the body of the \<open>try\<close> raised \<open>e\<close>, the function prints the
  error line for \<open>e\<close> after what the body had done and returns; the output file is then
  untouched or left partial, which is not reported as an error.
\<close>

theorem replace_never_raises:
  "fst (replace_text_in_pdf lib self infile outfile c st) = Inr () \<and>
   (\<forall>ts st1 ms st2 e st3.
      extract_text_from_pdf lib (os_path_join (input_dir self) infile) st = (Inr ts, st1) \<and>
      ts \<noteq> [] \<and>
      rewrite_loop lib self c ts [] st1 = (Inr ms, st2) \<and>
      replace_text_try lib (os_path_join (input_dir self) infile)
        (os_path_join (output_dir self) outfile) ms st2 = (Inl e, st3) \<longrightarrow>
      replace_text_in_pdf lib self infile outfile c st =
        (Inr (), print (cross_mark @ ascii '' Error processing PDF: '' @ exn_msg e) st3) \<and>
      (files st3 = files st2 \<or>
       files st3 = (files st2)(os_path_join (output_dir self) outfile \<mapsto> Partial)))"
proof (intro conjI allI impI)
  obtain ts st1 where e: "extract_text_from_pdf lib (os_path_join (input_dir self) infile) st =
      (Inr ts, st1)"
    using extract_never_raises by blast
  obtain ms st2 where r: "rewrite_loop lib self c ts [] st1 = (Inr ([] @ ms), st2)"
    using rewrite_loop_result by blast
  obtain res st3 where t: "replace_text_try lib (os_path_join (input_dir self) infile)
        (os_path_join (output_dir self) outfile) ms st2 = (res, st3)"
    by (cases "replace_text_try lib (os_path_join (input_dir self) infile)
        (os_path_join (output_dir self) outfile) ms st2")
  show "fst (replace_text_in_pdf lib self infile outfile c st) = Inr ()"
    using e r t by (cases res) (simp_all add: replace_text_in_pdf_def Let_def)
next
  fix ts st1 ms st2 e st3
  assume a: "extract_text_from_pdf lib (os_path_join (input_dir self) infile) st = (Inr ts, st1) \<and>
      ts \<noteq> [] \<and>
      rewrite_loop lib self c ts [] st1 = (Inr ms, st2) \<and>
      replace_text_try lib (os_path_join (input_dir self) infile)
        (os_path_join (output_dir self) outfile) ms st2 = (Inl e, st3)"
  then show "replace_text_in_pdf lib self infile outfile c st =
        (Inr (), print (cross_mark @ ascii '' Error processing PDF: '' @ exn_msg e) st3)"
    by (simp add: replace_text_in_pdf_def Let_def)
  from a show "files st3 = files st2 \<or>
       files st3 = (files st2)(os_path_join (output_dir self) outfile \<mapsto> Partial)"
    using replace_text_try_failure by blast
qed

theorem replace_never_raises_witness:
  "replace_text_in_pdf full_disk_lib demo_self (ascii ''a.pdf'') (ascii ''b.pdf'') demo_command
     world0 =
     (Inr (), print (cross_mark @ ascii '' Error processing PDF: '' @ exn_msg disk_full)
        (demo_world2\<lparr>files := (files demo_world2)(ascii ''out/b.pdf'' \<mapsto> Partial)\<rparr>))"
proof -
  have e: "extract_text_from_pdf full_disk_lib
      (os_path_join (input_dir demo_self) (ascii ''a.pdf'')) world0 =
      (Inr [ascii ''Hello Startup'', ascii ''Startup rocks''], world0)"
    unfolding demo_paths by (rule demo_extract) (simp add: full_disk_lib_def demo_lib_def)
  have n: "[ascii ''Hello Startup'', ascii ''Startup rocks''] \<noteq> []" by simp
  have r: "rewrite_loop full_disk_lib demo_self demo_command
      [ascii ''Hello Startup'', ascii ''Startup rocks''] [] world0 =
      (Inr [ascii ''Hello Enterprise'', ascii ''Startup rocks''], demo_world2)"
    by (rule demo_rewrite) (simp add: full_disk_lib_def demo_lib_def)
  have t: "replace_text_try full_disk_lib (os_path_join (input_dir demo_self) (ascii ''a.pdf''))
      (os_path_join (output_dir demo_self) (ascii ''b.pdf''))
      [ascii ''Hello Enterprise'', ascii ''Startup rocks''] demo_world2 =
      (Inl disk_full,
       demo_world2\<lparr>files := (files demo_world2)(ascii ''out/b.pdf'' \<mapsto> Partial)\<rparr>)"
    unfolding demo_paths by (rule demo_try_full_disk)
  from replace_never_raises
    [of full_disk_lib demo_self "ascii ''a.pdf''" "ascii ''b.pdf''" demo_command world0]
    e n r t
  show ?thesis by blast
qed

section \<open>A run that completes\<close>

lemma page_built_unfold:
  assumes "page_built doc (pg, m) np"
  shows "np_width np = width (rect pg) \<and> np_height np = height (rect pg) \<and>
         (\<exists>ims ds. get_images pg = Inr ims \<and>
            contents np = InsertText (50, 50) m 11 None # ds \<and>
            list_all2 (image_drawn doc pg) ims ds)"
  using assms by (auto simp add: page_built_def split: sum.splits list.splits)

lemma image_drawn_unfold:
  assumes "image_drawn doc pg im d"
  shows "\<exists>base b. extract_image doc (xref im) = Inr base \<and> image base = Some b \<and>
           d = InsertImage (rect pg) b"
  using assms by (auto simp add: image_drawn_def split: sum.splits option.splits)

lemma completed_run:
  assumes o: "fitz_open lib (os_path_join (input_dir self) infile) = Inr doc"
    and t: "map get_text (pages doc) = map Inr ts"
    and n: "pages doc \<noteq> []"
    and r: "rewrite_loop lib self c ts [] st = (Inr ms, st2)"
    and y: "replace_text_try lib (os_path_join (input_dir self) infile)
              (os_path_join (output_dir self) outfile) ms st2 = (Inr (), st3)"
  shows "replace_text_in_pdf lib self infile outfile c st = (Inr (), st3) \<and>
         length ms = length (pages doc) \<and>
         (\<exists>nd. files st3 (os_path_join (output_dir self) outfile) = Some (Complete nd) \<and>
            length nd = length (pages doc) \<and>
            (\<forall>i<length nd. page_built doc (pages doc ! i, ms ! i) (nd ! i)))"
proof -
  have "extract_loop (pages doc) [] = Inr ([] @ ts)"
    using t by (rule extract_loop_all_read)
  then have e: "extract_text_from_pdf lib (os_path_join (input_dir self) infile) st =
      (Inr ts, st)"
    using o by (simp add: extract_text_from_pdf_def extract_text_try_def)
  have "length (map get_text (pages doc)) = length (map Inr ts :: (exn + str) list)"
    using t by simp
  then have lt: "length ts = length (pages doc)" by simp
  with n have ne: "ts \<noteq> []" by auto
  have 1: "replace_text_in_pdf lib self infile outfile c st = (Inr (), st3)"
    using e ne r y by (simp add: replace_text_in_pdf_def Let_def)
  obtain ms' st' where "rewrite_loop lib self c ts [] st = (Inr ([] @ ms'), st')"
    and "length ms' = length ts"
    using rewrite_loop_result by blast
  with r have 2: "length ms = length (pages doc)" using lt by simp
  from replace_text_try_success [OF y] obtain doc' nd where
    o': "fitz_open lib (os_path_join (input_dir self) infile) = Inr doc'"
    and p: "page_loop lib doc' (zip (pages doc') ms) [] = Inr nd"
    and s: "st3 = print (check_mark @ ascii '' PDF processed successfully: '' @
                     os_path_join (output_dir self) outfile)
              (st2\<lparr>files := (files st2)(os_path_join (output_dir self) outfile \<mapsto> Complete nd)\<rparr>)"
    by blast
  from o o' have d: "doc' = doc" by simp
  from page_loop_result [OF p] d have
    a: "list_all2 (page_built doc) (zip (pages doc) ms) nd" by simp
  then have ln: "length nd = length (pages doc)"
    using 2 by (simp add: list_all2_lengthD [symmetric])
  have f: "files st3 (os_path_join (output_dir self) outfile) = Some (Complete nd)"
    using s by simp
  have b: "\<forall>i<length nd. page_built doc (pages doc ! i, ms ! i) (nd ! i)"
  proof (intro allI impI)
    fix i assume i: "i < length nd"
    then have "i < length (zip (pages doc) ms)" using ln 2 by simp
    from list_all2_nthD [OF a this] have "page_built doc (zip (pages doc) ms ! i) (nd ! i)" .
    moreover have "zip (pages doc) ms ! i = (pages doc ! i, ms ! i)"
      using i ln 2 by simp
    ultimately show "page_built doc (pages doc ! i, ms ! i) (nd ! i)" by simp
  qed
  from 1 2 f ln b show ?thesis by blast
qed

lemma demo_run_hyps:
  "fitz_open demo_lib (os_path_join (input_dir demo_self) (ascii ''a.pdf'')) = Inr demo_doc"
  "map get_text (pages demo_doc) = map Inr [ascii ''Hello Startup'', ascii ''Startup rocks'']"
  "pages demo_doc \<noteq> []"
  "rewrite_loop demo_lib demo_self demo_command
     [ascii ''Hello Startup'', ascii ''Startup rocks''] [] world0 =
     (Inr [ascii ''Hello Enterprise'', ascii ''Startup rocks''], demo_world2)"
  "replace_text_try demo_lib (os_path_join (input_dir demo_self) (ascii ''a.pdf''))
     (os_path_join (output_dir demo_self) (ascii ''b.pdf''))
     [ascii ''Hello Enterprise'', ascii ''Startup rocks''] demo_world2 = (Inr (), demo_world3)"
proof -
  show "fitz_open demo_lib (os_path_join (input_dir demo_self) (ascii ''a.pdf'')) = Inr demo_doc"
    by (simp add: demo_paths demo_lib_def demo_open_values)
  show "map get_text (pages demo_doc) =
      map Inr [ascii ''Hello Startup'', ascii ''Startup rocks'']"
    by (simp add: demo_doc_def demo_page1_def demo_page2_def)
  show "pages demo_doc \<noteq> []" by (simp add: demo_doc_def)
  show "rewrite_loop demo_lib demo_self demo_command
     [ascii ''Hello Startup'', ascii ''Startup rocks''] [] world0 =
     (Inr [ascii ''Hello Enterprise'', ascii ''Startup rocks''], demo_world2)"
    by (rule demo_rewrite) (simp add: demo_lib_def)
  show "replace_text_try demo_lib (os_path_join (input_dir demo_self) (ascii ''a.pdf''))
     (os_path_join (output_dir demo_self) (ascii ''b.pdf''))
     [ascii ''Hello Enterprise'', ascii ''Startup rocks''] demo_world2 = (Inr (), demo_world3)"
    unfolding demo_paths demo_world3_def by (rule demo_try_ok)
qed

lemma demo_saved:
  "files demo_world3 (os_path_join (output_dir demo_self) (ascii ''b.pdf'')) =
     Some (Complete demo_new_doc)"
  by (simp add: demo_paths demo_world3_def)

section \<open>Page count and page sizes\<close>

text \<open>
  Claim C1: in a run where the document opens, every page gives its text, there is at
  least one page, and the body of the \<open>try\<close> completes, the saved document has as many
  pages as the input (which is also the minimum of the page count and the number of
  rewritten texts), and page \<open>i\<close> of the output has the width and the height of page \<open>i\<close>
  of the input.
\<close>

theorem output_pages_match_input:
  assumes "fitz_open lib (os_path_join (input_dir self) infile) = Inr doc"
    and "map get_text (pages doc) = map Inr ts"
    and "pages doc \<noteq> []"
    and "rewrite_loop lib self c ts [] st = (Inr ms, st2)"
    and "replace_text_try lib (os_path_join (input_dir self) infile)
           (os_path_join (output_dir self) outfile) ms st2 = (Inr (), st3)"
  shows "replace_text_in_pdf lib self infile outfile c st = (Inr (), st3) \<and>
         (\<exists>nd. files st3 (os_path_join (output_dir self) outfile) = Some (Complete nd) \<and>
            length nd = length (pages doc) \<and>
            length nd = min (length (pages doc)) (length ms) \<and>
            (\<forall>i<length nd.
               np_width (nd ! i) = width (rect (pages doc ! i)) \<and>
               np_height (nd ! i) = height (rect (pages doc ! i))))"
proof -
  from completed_run [OF assms] obtain nd where
    1: "replace_text_in_pdf lib self infile outfile c st = (Inr (), st3)"
    and 2: "length ms = length (pages doc)"
    and f: "files st3 (os_path_join (output_dir self) outfile) = Some (Complete nd)"
    and l: "length nd = length (pages doc)"
    and b: "\<forall>i<length nd. page_built doc (pages doc ! i, ms ! i) (nd ! i)"
    by blast
  have m: "length nd = min (length (pages doc)) (length ms)" using l 2 by simp
  have w: "\<forall>i<length nd.
      np_width (nd ! i) = width (rect (pages doc ! i)) \<and>
      np_height (nd ! i) = height (rect (pages doc ! i))"
    using b page_built_unfold by blast
  from 1 f l m w show ?thesis by blast
qed

theorem output_pages_match_input_witness:
  "replace_text_in_pdf demo_lib demo_self (ascii ''a.pdf'') (ascii ''b.pdf'') demo_command
     world0 = (Inr (), demo_world3) \<and>
   (\<exists>nd. files demo_world3 (ascii ''out/b.pdf'') = Some (Complete nd) \<and>
      length nd = 2 \<and>
      np_width (nd ! 0) = 612 \<and> np_height (nd ! 0) = 792 \<and>
      np_width (nd ! 1) = 612 \<and> np_height (nd ! 1) = 792)"
proof -
  from output_pages_match_input [OF demo_run_hyps] obtain nd where
    1: "replace_text_in_pdf demo_lib demo_self (ascii ''a.pdf'') (ascii ''b.pdf'')
          demo_command world0 = (Inr (), demo_world3)"
    and f: "files demo_world3 (os_path_join (output_dir demo_self) (ascii ''b.pdf'')) =
          Some (Complete nd)"
    and l: "length nd = length (pages demo_doc)"
    and w: "\<forall>i<length nd.
              np_width (nd ! i) = width (rect (pages demo_doc ! i)) \<and>
              np_height (nd ! i) = height (rect (pages demo_doc ! i))"
    by blast
  from l have l2: "length nd = 2" by (simp add: demo_doc_def)
  from w l2 have w0: "np_width (nd ! 0) = width (rect (pages demo_doc ! 0)) \<and>
      np_height (nd ! 0) = height (rect (pages demo_doc ! 0))" by simp
  from w l2 have w1: "np_width (nd ! 1) = width (rect (pages demo_doc ! 1)) \<and>
      np_height (nd ! 1) = height (rect (pages demo_doc ! 1))" by simp
  have p: "width (rect (pages demo_doc ! 0)) = 612" "height (rect (pages demo_doc ! 0)) = 792"
    "width (rect (pages demo_doc ! 1)) = 612" "height (rect (pages demo_doc ! 1)) = 792"
    by (simp_all add: demo_doc_def demo_page1_def demo_page2_def demo_rect_def)
  from f have f': "files demo_world3 (ascii ''out/b.pdf'') = Some (Complete nd)"
    by (simp add: demo_paths)
  from 1 f' l2 w0 w1 p show ?thesis by auto
qed

section \<open>Images are drawn over the whole page\<close>

text \<open>
  Claim C6: in a run that completes, \<open>replace_text_in_pdf\<close> returns with the output
  document saved, and every page of that document holds, after its text, one image
  insertion per image enumerated on the original page, in enumeration order; each carries the bytes that \<open>extract_image\<close> gives for that cross reference, and its
  placement rectangle is the rectangle of the original page, whose width and height are
  those of the new page, whatever the image's own size.
\<close>

theorem images_fill_the_page:
  assumes "fitz_open lib (os_path_join (input_dir self) infile) = Inr doc"
    and "map get_text (pages doc) = map Inr ts"
    and "pages doc \<noteq> []"
    and "rewrite_loop lib self c ts [] st = (Inr ms, st2)"
    and "replace_text_try lib (os_path_join (input_dir self) infile)
           (os_path_join (output_dir self) outfile) ms st2 = (Inr (), st3)"
  shows "replace_text_in_pdf lib self infile outfile c st = (Inr (), st3) \<and>
         (\<exists>nd. files st3 (os_path_join (output_dir self) outfile) = Some (Complete nd) \<and>
           length nd = length (pages doc) \<and>
           (\<forall>i<length nd. \<exists>ims d ds.
              get_images (pages doc ! i) = Inr ims \<and>
              contents (nd ! i) = d # ds \<and>
              length ds = length ims \<and>
              (\<forall>j<length ims. \<exists>base b.
                 extract_image doc (xref (ims ! j)) = Inr base \<and>
                 image base = Some b \<and>
                 ds ! j = InsertImage (rect (pages doc ! i)) b \<and>
                 width (op_rect (ds ! j)) = np_width (nd ! i) \<and>
                 height (op_rect (ds ! j)) = np_height (nd ! i))))"
proof -
  from completed_run [OF assms] obtain nd where
    1: "replace_text_in_pdf lib self infile outfile c st = (Inr (), st3)"
    and f: "files st3 (os_path_join (output_dir self) outfile) = Some (Complete nd)"
    and l: "length nd = length (pages doc)"
    and b: "\<forall>i<length nd. page_built doc (pages doc ! i, ms ! i) (nd ! i)"
    by blast
  have "\<forall>i<length nd. \<exists>ims d ds.
              get_images (pages doc ! i) = Inr ims \<and>
              contents (nd ! i) = d # ds \<and>
              length ds = length ims \<and>
              (\<forall>j<length ims. \<exists>base b.
                 extract_image doc (xref (ims ! j)) = Inr base \<and>
                 image base = Some b \<and>
                 ds ! j = InsertImage (rect (pages doc ! i)) b \<and>
                 width (op_rect (ds ! j)) = np_width (nd ! i) \<and>
                 height (op_rect (ds ! j)) = np_height (nd ! i))"
  proof (intro allI impI)
    fix i assume "i < length nd"
    with b have pb: "page_built doc (pages doc ! i, ms ! i) (nd ! i)" by blast
    from page_built_unfold [OF pb] obtain ims ds where
      w: "np_width (nd ! i) = width (rect (pages doc ! i))"
      and h: "np_height (nd ! i) = height (rect (pages doc ! i))"
      and g: "get_images (pages doc ! i) = Inr ims"
      and c: "contents (nd ! i) = InsertText (50, 50) (ms ! i) 11 None # ds"
      and a: "list_all2 (image_drawn doc (pages doc ! i)) ims ds"
      by blast
    from a have len: "length ds = length ims" by (simp add: list_all2_lengthD)
    have each: "\<forall>j<length ims. \<exists>base b.
        extract_image doc (xref (ims ! j)) = Inr base \<and>
        image base = Some b \<and>
        ds ! j = InsertImage (rect (pages doc ! i)) b \<and>
        width (op_rect (ds ! j)) = np_width (nd ! i) \<and>
        height (op_rect (ds ! j)) = np_height (nd ! i)"
    proof (intro allI impI)
      fix j assume j: "j < length ims"
      from list_all2_nthD [OF a j] have "image_drawn doc (pages doc ! i) (ims ! j) (ds ! j)" .
      from image_drawn_unfold [OF this] obtain base bs where
        "extract_image doc (xref (ims ! j)) = Inr base" "image base = Some bs"
        "ds ! j = InsertImage (rect (pages doc ! i)) bs"
        by blast
      then show "\<exists>base b.
        extract_image doc (xref (ims ! j)) = Inr base \<and>
        image base = Some b \<and>
        ds ! j = InsertImage (rect (pages doc ! i)) b \<and>
        width (op_rect (ds ! j)) = np_width (nd ! i) \<and>
        height (op_rect (ds ! j)) = np_height (nd ! i)"
        using w h by simp
    qed
    from g c len each show "\<exists>ims d ds.
              get_images (pages doc ! i) = Inr ims \<and>
              contents (nd ! i) = d # ds \<and>
              length ds = length ims \<and>
              (\<forall>j<length ims. \<exists>base b.
                 extract_image doc (xref (ims ! j)) = Inr base \<and>
                 image base = Some b \<and>
                 ds ! j = InsertImage (rect (pages doc ! i)) b \<and>
                 width (op_rect (ds ! j)) = np_width (nd ! i) \<and>
                 height (op_rect (ds ! j)) = np_height (nd ! i))"
      by blast
  qed
  with 1 f l show ?thesis by blast
qed

theorem images_fill_the_page_witness:
  "replace_text_in_pdf demo_lib demo_self (ascii ''a.pdf'') (ascii ''b.pdf'') demo_command
     world0 = (Inr (), demo_world3) \<and>
   (\<exists>nd d. files (snd (replace_text_in_pdf demo_lib demo_self (ascii ''a.pdf'')
                (ascii ''b.pdf'') demo_command world0)) (ascii ''out/b.pdf'') =
             Some (Complete nd) \<and>
     length nd = 2 \<and>
     contents (nd ! 0) = [d, InsertImage demo_rect [137, 80, 78, 71]] \<and>
     np_width (nd ! 0) = width demo_rect \<and> np_height (nd ! 0) = height demo_rect \<and>
     img_width demo_img = 2 \<and> img_height demo_img = 1)"
proof -
  from images_fill_the_page [OF demo_run_hyps] obtain nd where
    1: "replace_text_in_pdf demo_lib demo_self (ascii ''a.pdf'') (ascii ''b.pdf'')
          demo_command world0 = (Inr (), demo_world3)"
    and f: "files demo_world3 (os_path_join (output_dir demo_self) (ascii ''b.pdf'')) =
          Some (Complete nd)"
    and l: "length nd = length (pages demo_doc)"
    and a: "\<forall>i<length nd. \<exists>ims d ds.
              get_images (pages demo_doc ! i) = Inr ims \<and>
              contents (nd ! i) = d # ds \<and>
              length ds = length ims \<and>
              (\<forall>j<length ims. \<exists>base b.
                 extract_image demo_doc (xref (ims ! j)) = Inr base \<and>
                 image base = Some b \<and>
                 ds ! j = InsertImage (rect (pages demo_doc ! i)) b \<and>
                 width (op_rect (ds ! j)) = np_width (nd ! i) \<and>
                 height (op_rect (ds ! j)) = np_height (nd ! i))"
    by blast
  from l have l2: "length nd = 2" by (simp add: demo_doc_def)
  then have "(0::nat) < length nd" by simp
  with a obtain ims d ds where
    g: "get_images (pages demo_doc ! 0) = Inr ims"
    and c: "contents (nd ! 0) = d # ds"
    and len: "length ds = length ims"
    and e: "\<forall>j<length ims. \<exists>base b.
                 extract_image demo_doc (xref (ims ! j)) = Inr base \<and>
                 image base = Some b \<and>
                 ds ! j = InsertImage (rect (pages demo_doc ! 0)) b \<and>
                 width (op_rect (ds ! j)) = np_width (nd ! 0) \<and>
                 height (op_rect (ds ! j)) = np_height (nd ! 0)"
    by blast
  from g have ims: "ims = [demo_img]" by (simp add: demo_doc_def demo_page1_def)
  with len have "length ds = 1" by simp
  then obtain d1 where ds: "ds = [d1]" by (cases ds) auto
  from e ims obtain base b where
    x: "extract_image demo_doc (xref demo_img) = Inr base" and i: "image base = Some b"
    and d1: "ds ! 0 = InsertImage (rect (pages demo_doc ! 0)) b"
    and w: "width (op_rect (ds ! 0)) = np_width (nd ! 0)"
    and h: "height (op_rect (ds ! 0)) = np_height (nd ! 0)"
    by auto
  from x i have b: "b = [137, 80, 78, 71]"
    by (auto simp add: demo_doc_def demo_img_def demo_extract_image_def)
  have r: "rect (pages demo_doc ! 0) = demo_rect" by (simp add: demo_doc_def demo_page1_def)
  from d1 ds b r have d1': "d1 = InsertImage demo_rect [137, 80, 78, 71]" by simp
  from c ds d1' have c': "contents (nd ! 0) = [d, InsertImage demo_rect [137, 80, 78, 71]]"
    by simp
  from w h d1 r have wh: "np_width (nd ! 0) = width demo_rect \<and>
      np_height (nd ! 0) = height demo_rect" by simp
  from f 1 have f': "files (snd (replace_text_in_pdf demo_lib demo_self (ascii ''a.pdf'')
      (ascii ''b.pdf'') demo_command world0)) (ascii ''out/b.pdf'') = Some (Complete nd)"
    by (simp add: demo_paths)
  have sz: "img_width demo_img = 2 \<and> img_height demo_img = 1" by (simp add: demo_img_def)
  from 1 f' l2 c' wh sz show ?thesis by blast
qed

section \<open>The rewritten text is one run at a fixed place\<close>

text \<open>
  Claim C7: in a run that completes, \<open>replace_text_in_pdf\<close> returns with the output
  document saved, and the first insertion on every page of that document is the whole
  rewritten text of that page, at the point (50, 50), at font size 11, with no
  font named (the default font); every later insertion on the page is an image, so the
  text is a single run and is passed as it is, without wrapping.
\<close>

theorem text_inserted_once_at_fixed_offset:
  assumes "fitz_open lib (os_path_join (input_dir self) infile) = Inr doc"
    and "map get_text (pages doc) = map Inr ts"
    and "pages doc \<noteq> []"
    and "rewrite_loop lib self c ts [] st = (Inr ms, st2)"
    and "replace_text_try lib (os_path_join (input_dir self) infile)
           (os_path_join (output_dir self) outfile) ms st2 = (Inr (), st3)"
  shows "replace_text_in_pdf lib self infile outfile c st = (Inr (), st3) \<and>
         (\<exists>nd. files st3 (os_path_join (output_dir self) outfile) = Some (Complete nd) \<and>
           length nd = length ms \<and>
           (\<forall>i<length nd. \<exists>ds.
              contents (nd ! i) = InsertText (50, 50) (ms ! i) 11 None # ds \<and>
              (\<forall>d\<in>set ds. \<exists>r b. d = InsertImage r b)))"
proof -
  from completed_run [OF assms] obtain nd where
    1: "replace_text_in_pdf lib self infile outfile c st = (Inr (), st3)"
    and 2: "length ms = length (pages doc)"
    and f: "files st3 (os_path_join (output_dir self) outfile) = Some (Complete nd)"
    and l: "length nd = length (pages doc)"
    and b: "\<forall>i<length nd. page_built doc (pages doc ! i, ms ! i) (nd ! i)"
    by blast
  have "\<forall>i<length nd. \<exists>ds.
      contents (nd ! i) = InsertText (50, 50) (ms ! i) 11 None # ds \<and>
      (\<forall>d\<in>set ds. \<exists>r b. d = InsertImage r b)"
  proof (intro allI impI)
    fix i assume "i < length nd"
    with b have pb: "page_built doc (pages doc ! i, ms ! i) (nd ! i)" by blast
    from page_built_unfold [OF pb] obtain ims ds where
      c: "contents (nd ! i) = InsertText (50, 50) (ms ! i) 11 None # ds"
      and a: "list_all2 (image_drawn doc (pages doc ! i)) ims ds"
      by blast
    have "\<forall>d\<in>set ds. \<exists>r b. d = InsertImage r b"
    proof
      fix d assume "d \<in> set ds"
      then obtain j where j: "j < length ds" and d: "ds ! j = d"
        by (auto simp add: in_set_conv_nth)
      from a j have "j < length ims" by (simp add: list_all2_lengthD)
      from list_all2_nthD [OF a this] d
      have "image_drawn doc (pages doc ! i) (ims ! j) d" by simp
      from image_drawn_unfold [OF this] show "\<exists>r b. d = InsertImage r b" by blast
    qed
    with c show "\<exists>ds.
      contents (nd ! i) = InsertText (50, 50) (ms ! i) 11 None # ds \<and>
      (\<forall>d\<in>set ds. \<exists>r b. d = InsertImage r b)" by blast
  qed
  with 1 f l 2 show ?thesis by auto
qed

theorem text_inserted_once_at_fixed_offset_witness:
  "replace_text_in_pdf demo_lib demo_self (ascii ''a.pdf'') (ascii ''b.pdf'') demo_command
     world0 = (Inr (), demo_world3) \<and>
   (\<exists>nd ds0 ds1. files (snd (replace_text_in_pdf demo_lib demo_self (ascii ''a.pdf'')
                (ascii ''b.pdf'') demo_command world0)) (ascii ''out/b.pdf'') =
             Some (Complete nd) \<and>
     length nd = 2 \<and>
     contents (nd ! 0) = InsertText (50, 50) (ascii ''Hello Enterprise'') 11 None # ds0 \<and>
     contents (nd ! 1) = InsertText (50, 50) (ascii ''Startup rocks'') 11 None # ds1)"
proof -
  from text_inserted_once_at_fixed_offset [OF demo_run_hyps] obtain nd where
    1: "replace_text_in_pdf demo_lib demo_self (ascii ''a.pdf'') (ascii ''b.pdf'')
          demo_command world0 = (Inr (), demo_world3)"
    and f: "files demo_world3 (os_path_join (output_dir demo_self) (ascii ''b.pdf'')) =
          Some (Complete nd)"
    and l: "length nd = length [ascii ''Hello Enterprise'', ascii ''Startup rocks'']"
    and a: "\<forall>i<length nd. \<exists>ds.
              contents (nd ! i) =
                InsertText (50, 50)
                  ([ascii ''Hello Enterprise'', ascii ''Startup rocks''] ! i) 11 None # ds \<and>
              (\<forall>d\<in>set ds. \<exists>r b. d = InsertImage r b)"
    by blast
  from l have l2: "length nd = 2" by simp
  have i0: "(0::nat) < length nd" and i1: "(1::nat) < length nd" using l2 by simp_all
  from a [rule_format, OF i0] obtain ds0 where
    "contents (nd ! 0) =
       InsertText (50, 50) ([ascii ''Hello Enterprise'', ascii ''Startup rocks''] ! 0) 11 None # ds0"
    by blast
  then have
    c0: "contents (nd ! 0) = InsertText (50, 50) (ascii ''Hello Enterprise'') 11 None # ds0"
    by simp
  from a [rule_format, OF i1] obtain ds1 where
    "contents (nd ! 1) =
       InsertText (50, 50) ([ascii ''Hello Enterprise'', ascii ''Startup rocks''] ! 1) 11 None # ds1"
    by blast
  then have
    c1: "contents (nd ! 1) = InsertText (50, 50) (ascii ''Startup rocks'') 11 None # ds1"
    by simp
  from f 1 have f': "files (snd (replace_text_in_pdf demo_lib demo_self (ascii ''a.pdf'')
      (ascii ''b.pdf'') demo_command world0)) (ascii ''out/b.pdf'') = Some (Complete nd)"
    by (simp add: demo_paths)
  from 1 f' l2 c0 c1 show ?thesis by blast
qed

end
